theory Spec2Isabelle
  imports Complex_Main
begin

section \<open>The train proximity simulator (train.py)\<close>

text \<open>
  The script sets up a list of trains, then steps a clock from the earliest departure to
  the latest arrival and prints a warning for every pair of active trains that is too
  close outside a crossing.

  Conventions of the embedding.
  \<^item> A Python \<open>float\<close> (and an \<open>int\<close> used in float arithmetic) is a \<open>rat\<close>: arithmetic on
    positions, speeds and lengths is exact. The literal \<open>0.01\<close> is \<open>1/100\<close>. The rounding
    of float operations is not modelled, and the numeric fields of a train are finite
    floats or ints of float range: an int beyond the float range, an infinity and a NaN,
    on which the conversion to float or \<open>timedelta\<close> raise, are no inputs of the model.
  \<^item> A \<open>datetime\<close> is an \<open>int\<close>: the number of microseconds since 1900-01-01 00:00:00, the
    date that \<open>strptime\<close> gives to a time of day. A \<open>timedelta\<close> is an \<open>int\<close> number of
    microseconds. Both types have microsecond resolution and a bounded range in Python;
    both are modelled.
  \<^item> An exception is a value of type \<open>error\<close>, returned as \<open>Inl\<close>.
  \<^item> The dictionary \<open>positions\<close> is an association list in insertion order, as a Python
    \<open>dict\<close> keeps its keys.
  \<^item> The constants of the script (\<open>SAFE_DISTANCE\<close>, \<open>CROSSINGS\<close>, \<open>step\<close>, \<open>trains\<close>) are
    parameters of the functions; the script's own values are given below.
  \<^item> A printed warning line is the record of the values it is formatted from.
\<close>

subsection \<open>Data\<close>

datatype error = ValueError | ZeroDivisionError | OverflowError | IndexError | KeyError

text \<open>A train as it is written in the list \<open>trains\<close> of the script.\<close>

record train_desc =
  name :: string
  departure :: string
  speed :: rat
  distance :: rat
  cars :: rat
  car_length :: rat

text \<open>A train after the setup loop has added the keys
  \<open>departure_time\<close>, \<open>arrival_time\<close> and \<open>length\<close>.\<close>

record train = train_desc +
  departure_time :: int
  arrival_time :: int
  length_km :: rat

record params =
  safe_distance :: rat
  crossings :: "rat list"
  step :: int

record warning =
  tick_time :: int
  t1_name :: string
  t2_name :: string
  gap_km :: rat

record sim_state =
  trains :: "train list"
  current_time :: int
  end_time :: int
  warnings :: "warning list"

subsection \<open>The library functions the script calls\<close>

text \<open>\<open>datetime.strptime(s, "%H:%M")\<close>: the format compiles to the regular expression
  \<open>(2[0-3]|[0-1]\d|\d):([0-5]\d|\d)\<close>, which has to match the whole string; anything else
  raises \<open>ValueError\<close>. The result is that time of day on 1900-01-01. Strings are
  strings of ASCII characters, so a digit is one of \<open>0\<close> to \<open>9\<close>.\<close>

definition digit :: "char \<Rightarrow> nat option" where
  "digit c = (let n = (of_char c :: nat) in if 48 \<le> n \<and> n \<le> 57 then Some (n - 48) else None)"

definition hour_field :: "string \<Rightarrow> nat option" where
  "hour_field s =
     (case s of
        [a] \<Rightarrow> digit a
      | [a, b] \<Rightarrow>
          (case (digit a, digit b) of
             (Some x, Some y) \<Rightarrow> if x < 2 \<or> (x = 2 \<and> y < 4) then Some (10 * x + y) else None
           | _ \<Rightarrow> None)
      | _ \<Rightarrow> None)"

definition minute_field :: "string \<Rightarrow> nat option" where
  "minute_field s =
     (case s of
        [a] \<Rightarrow> digit a
      | [a, b] \<Rightarrow>
          (case (digit a, digit b) of
             (Some x, Some y) \<Rightarrow> if x < 6 then Some (10 * x + y) else None
           | _ \<Rightarrow> None)
      | _ \<Rightarrow> None)"

definition strptime_HM :: "string \<Rightarrow> error + int" where
  "strptime_HM s =
     (case dropWhile (\<lambda>c. c \<noteq> CHR '':'') s of
        [] \<Rightarrow> Inl ValueError
      | _ # m \<Rightarrow>
          (case (hour_field (takeWhile (\<lambda>c. c \<noteq> CHR '':'') s), minute_field m) of
             (Some H, Some M) \<Rightarrow> Inr ((int H * 60 + int M) * 60000000)
           | _ \<Rightarrow> Inl ValueError))"

text \<open>The range of \<open>datetime\<close>: 0001-01-01 00:00:00 to 9999-12-31 23:59:59.999999.
  1900-01-01 is day 693596 of the proleptic calendar, 9999-12-31 is day 3652059.\<close>

definition us_per_day :: int where
  "us_per_day = 86400000000"

definition DATETIME_MIN :: int where
  "DATETIME_MIN = - (693595 * us_per_day)"

definition DATETIME_MAX :: int where
  "DATETIME_MAX = 2958464 * us_per_day - 1"

text \<open>Rounding to the nearest integer, ties to even: what \<open>timedelta\<close> does with
  fractional microseconds.\<close>

definition round_half_even :: "rat \<Rightarrow> int" where
  "round_half_even x =
     (let f = \<lfloor>x\<rfloor>; d = x - of_int f
      in if d < 1 / 2 then f
         else if 1 / 2 < d then f + 1
         else if even f then f else f + 1)"

text \<open>\<open>timedelta(hours=h)\<close>: \<open>h\<close> hours in microseconds, rounded; \<open>OverflowError\<close> when
  the number of days is beyond 999999999 in magnitude.\<close>

definition timedelta_hours :: "rat \<Rightarrow> error + int" where
  "timedelta_hours h =
     (let us = round_half_even (h * 3600000000)
      in if \<bar>us div us_per_day\<bar> > 999999999 then Inl OverflowError else Inr us)"

text \<open>\<open>datetime + timedelta\<close>: \<open>OverflowError\<close> outside the range of \<open>datetime\<close>.\<close>

definition datetime_add :: "int \<Rightarrow> int \<Rightarrow> error + int" where
  "datetime_add t d =
     (let r = t + d in if r < DATETIME_MIN \<or> DATETIME_MAX < r then Inl OverflowError else Inr r)"

text \<open>\<open>timedelta.total_seconds()\<close>.\<close>

definition total_seconds :: "int \<Rightarrow> rat" where
  "total_seconds d = of_int d / 1000000"

text \<open>\<open>xs[i]\<close> on a list, \<open>d[k] = v\<close> and \<open>d[k]\<close> on a dictionary, \<open>list(d.keys())\<close>.\<close>

definition list_get :: "'a list \<Rightarrow> nat \<Rightarrow> error + 'a" where
  "list_get xs i = (if i < length xs then Inr (xs ! i) else Inl IndexError)"

fun dict_set :: "('k \<times> 'v) list \<Rightarrow> 'k \<Rightarrow> 'v \<Rightarrow> ('k \<times> 'v) list" where
  "dict_set [] k v = [(k, v)]"
| "dict_set (p # ps) k v = (if fst p = k then (k, v) # ps else p # dict_set ps k v)"

definition dict_get :: "('k \<times> 'v) list \<Rightarrow> 'k \<Rightarrow> error + 'v" where
  "dict_get d k = (case map_of d k of None \<Rightarrow> Inl KeyError | Some v \<Rightarrow> Inr v)"

definition dict_keys :: "('k \<times> 'v) list \<Rightarrow> 'k list" where
  "dict_keys d = map fst d"

text \<open>\<open>min(...)\<close> and \<open>max(...)\<close> of a generator: \<open>ValueError\<close> when it is empty.\<close>

definition min_of :: "int list \<Rightarrow> error + int" where
  "min_of xs = (case xs of [] \<Rightarrow> Inl ValueError | x # ys \<Rightarrow> Inr (fold min ys x))"

definition max_of :: "int list \<Rightarrow> error + int" where
  "max_of xs = (case xs of [] \<Rightarrow> Inl ValueError | x # ys \<Rightarrow> Inr (fold max ys x))"

subsection \<open>Setup (lines 18-26)\<close>

definition setup_train :: "train_desc \<Rightarrow> error + train" where
  "setup_train d =
     (case strptime_HM (departure d) of
        Inl e \<Rightarrow> Inl e
      | Inr dep \<Rightarrow>
          if speed d = 0 then Inl ZeroDivisionError
          else
            (case timedelta_hours (distance d / speed d) of
               Inl e \<Rightarrow> Inl e
             | Inr td \<Rightarrow>
                 (case datetime_add dep td of
                    Inl e \<Rightarrow> Inl e
                  | Inr arr \<Rightarrow>
                      Inr \<lparr>name = name d, departure = departure d, speed = speed d,
                           distance = distance d, cars = cars d, car_length = car_length d,
                           departure_time = dep, arrival_time = arr,
                           length_km = cars d * car_length d / 1000\<rparr>)))"

fun setup_trains :: "train_desc list \<Rightarrow> error + train list" where
  "setup_trains [] = Inr []"
| "setup_trains (d # ds) =
     (case setup_train d of
        Inl e \<Rightarrow> Inl e
      | Inr t \<Rightarrow> (case setup_trains ds of Inl e \<Rightarrow> Inl e | Inr ts \<Rightarrow> Inr (t # ts)))"

definition setup_sim :: "train_desc list \<Rightarrow> error + sim_state" where
  "setup_sim ds =
     (case setup_trains ds of
        Inl e \<Rightarrow> Inl e
      | Inr ts \<Rightarrow>
          (case min_of (map departure_time ts) of
             Inl e \<Rightarrow> Inl e
           | Inr t0 \<Rightarrow>
               (case max_of (map arrival_time ts) of
                  Inl e \<Rightarrow> Inl e
                | Inr t1 \<Rightarrow>
                    Inr \<lparr>trains = ts, current_time = t0, end_time = t1, warnings = []\<rparr>)))"

subsection \<open>One tick (lines 31-52)\<close>

definition active :: "int \<Rightarrow> train \<Rightarrow> bool" where
  "active now t \<longleftrightarrow> now \<ge> departure_time t \<and> now \<le> arrival_time t"

definition distance_traveled :: "int \<Rightarrow> train \<Rightarrow> rat" where
  "distance_traveled now t =
     (let time_elapsed = total_seconds (now - departure_time t) / 3600
      in speed t * time_elapsed)"

fun snapshot :: "int \<Rightarrow> train list \<Rightarrow> (string \<times> rat) list \<Rightarrow> (string \<times> rat) list" where
  "snapshot now [] positions = positions"
| "snapshot now (t # ts) positions =
     (if active now t
      then snapshot now ts (dict_set positions (name t) (distance_traveled now t))
      else snapshot now ts positions)"

definition near_crossing :: "rat list \<Rightarrow> rat \<Rightarrow> rat \<Rightarrow> bool" where
  "near_crossing cs p1 p2 = list_ex (\<lambda>c. \<bar>p1 - c\<bar> < 1 / 100 \<and> \<bar>p2 - c\<bar> < 1 / 100) cs"

text \<open>Line 46. The lengths are read from \<open>trains[i]\<close> and \<open>trains[j]\<close>, where \<open>i\<close> and
  \<open>j\<close> are the indices into \<open>train_names\<close>.\<close>

definition compute_gap ::
  "train list \<Rightarrow> (string \<times> rat) list \<Rightarrow> string list \<Rightarrow> nat \<Rightarrow> nat \<Rightarrow> error + rat" where
  "compute_gap ts positions train_names i j =
     (case list_get train_names i of Inl e \<Rightarrow> Inl e | Inr t1 \<Rightarrow>
      case list_get train_names j of Inl e \<Rightarrow> Inl e | Inr t2 \<Rightarrow>
      case dict_get positions t1 of Inl e \<Rightarrow> Inl e | Inr p1 \<Rightarrow>
      case dict_get positions t2 of Inl e \<Rightarrow> Inl e | Inr p2 \<Rightarrow>
      case list_get ts i of Inl e \<Rightarrow> Inl e | Inr a \<Rightarrow>
      case list_get ts j of Inl e \<Rightarrow> Inl e | Inr b \<Rightarrow>
        Inr (\<bar>p1 - p2\<bar> - (length_km a + length_km b)))"

text \<open>The body of the inner loop (lines 43-52): the warnings it prints, none or one.\<close>

definition check_pair ::
  "params \<Rightarrow> train list \<Rightarrow> int \<Rightarrow> (string \<times> rat) list \<Rightarrow> string list \<Rightarrow> nat \<Rightarrow> nat
     \<Rightarrow> error + warning list" where
  "check_pair P ts now positions train_names i j =
     (case compute_gap ts positions train_names i j of Inl e \<Rightarrow> Inl e | Inr gap \<Rightarrow>
      case list_get train_names i of Inl e \<Rightarrow> Inl e | Inr t1 \<Rightarrow>
      case list_get train_names j of Inl e \<Rightarrow> Inl e | Inr t2 \<Rightarrow>
      case dict_get positions t1 of Inl e \<Rightarrow> Inl e | Inr p1 \<Rightarrow>
      case dict_get positions t2 of Inl e \<Rightarrow> Inl e | Inr p2 \<Rightarrow>
        if gap * 1000 < safe_distance P \<and> \<not> near_crossing (crossings P) p1 p2
        then Inr [\<lparr>tick_time = now, t1_name = t1, t2_name = t2, gap_km = gap\<rparr>]
        else Inr [])"

text \<open>\<open>for j in range(i + 1, len(train_names))\<close>, over the list of the values of \<open>j\<close>.\<close>

fun for_j ::
  "params \<Rightarrow> train list \<Rightarrow> int \<Rightarrow> (string \<times> rat) list \<Rightarrow> string list \<Rightarrow> nat \<Rightarrow> nat list
     \<Rightarrow> warning list \<Rightarrow> error + warning list" where
  "for_j P ts now positions train_names i [] out = Inr out"
| "for_j P ts now positions train_names i (j # js) out =
     (case check_pair P ts now positions train_names i j of
        Inl e \<Rightarrow> Inl e
      | Inr ws \<Rightarrow> for_j P ts now positions train_names i js (out @ ws))"

text \<open>\<open>for i in range(len(train_names))\<close>.\<close>

fun for_i ::
  "params \<Rightarrow> train list \<Rightarrow> int \<Rightarrow> (string \<times> rat) list \<Rightarrow> string list \<Rightarrow> nat list
     \<Rightarrow> warning list \<Rightarrow> error + warning list" where
  "for_i P ts now positions train_names [] out = Inr out"
| "for_i P ts now positions train_names (i # is) out =
     (case for_j P ts now positions train_names i [i + 1 ..< length train_names] out of
        Inl e \<Rightarrow> Inl e
      | Inr out' \<Rightarrow> for_i P ts now positions train_names is out')"

text \<open>The body of the \<open>while\<close> loop up to the clock advance: the warnings of one tick.\<close>

definition tick :: "params \<Rightarrow> train list \<Rightarrow> int \<Rightarrow> error + warning list" where
  "tick P ts now =
     (let positions = snapshot now ts [];
          train_names = dict_keys positions
      in for_i P ts now positions train_names [0 ..< length train_names] [])"

subsection \<open>The simulation loop (lines 30-54) and the script\<close>

partial_function (option) sim_loop :: "params \<Rightarrow> sim_state \<Rightarrow> (error + sim_state) option" where
  "sim_loop P st =
     (if current_time st \<le> end_time st
      then
        (case tick P (trains st) (current_time st) of
           Inl e \<Rightarrow> Some (Inl e)
         | Inr ws \<Rightarrow>
             (case datetime_add (current_time st) (step P) of
                Inl e \<Rightarrow> Some (Inl e)
              | Inr t' \<Rightarrow> sim_loop P (st\<lparr>current_time := t', warnings := warnings st @ ws\<rparr>)))
      else Some (Inr st))"

declare sim_loop.simps [code]

definition simulate :: "params \<Rightarrow> train_desc list \<Rightarrow> (error + sim_state) option" where
  "simulate P ds = (case setup_sim ds of Inl e \<Rightarrow> Some (Inl e) | Inr st \<Rightarrow> sim_loop P st)"

text \<open>The values written in the script.\<close>

definition script_trains :: "train_desc list" where
  "script_trains =
     [\<lparr>name = ''A'', departure = ''08:00'', speed = 80, distance = 240, cars = 8, car_length = 20\<rparr>,
      \<lparr>name = ''B'', departure = ''08:30'', speed = 60, distance = 240, cars = 10, car_length = 25\<rparr>,
      \<lparr>name = ''C'', departure = ''09:00'', speed = 100, distance = 240, cars = 6, car_length = 18\<rparr>,
      \<lparr>name = ''D'', departure = ''09:15'', speed = 90, distance = 240, cars = 12, car_length = 22\<rparr>]"

definition script_params :: params where
  "script_params = \<lparr>safe_distance = 100, crossings = [60, 120, 180, 220], step = 60000000\<rparr>"

text \<open>The state of the script after its setup.\<close>

definition script_state :: sim_state where
  "script_state =
     \<lparr>trains =
        [\<lparr>name = ''A'', departure = ''08:00'', speed = 80, distance = 240,
            cars = 8, car_length = 20, departure_time = 28800000000,
            arrival_time = 39600000000, length_km = 4 / 25\<rparr>,
         \<lparr>name = ''B'', departure = ''08:30'', speed = 60, distance = 240,
            cars = 10, car_length = 25, departure_time = 30600000000,
            arrival_time = 45000000000, length_km = 1 / 4\<rparr>,
         \<lparr>name = ''C'', departure = ''09:00'', speed = 100, distance = 240,
            cars = 6, car_length = 18, departure_time = 32400000000,
            arrival_time = 41040000000, length_km = 27 / 250\<rparr>,
         \<lparr>name = ''D'', departure = ''09:15'', speed = 90, distance = 240,
            cars = 12, car_length = 22, departure_time = 33300000000,
            arrival_time = 42900000000, length_km = 33 / 125\<rparr>],
      current_time = 28800000000, end_time = 45000000000, warnings = []\<rparr>"

text \<open>Two trains that leave together at the same speed, after their setup.\<close>

definition twin_descs :: "train_desc list" where
  "twin_descs =
     [\<lparr>name = ''A'', departure = ''08:00'', speed = 60, distance = 240, cars = 8, car_length = 20\<rparr>,
      \<lparr>name = ''B'', departure = ''08:00'', speed = 60, distance = 240, cars = 8, car_length = 20\<rparr>]"

definition twins :: "train list" where
  "twins =
     [\<lparr>name = ''A'', departure = ''08:00'', speed = 60, distance = 240, cars = 8,
         car_length = 20, departure_time = 28800000000, arrival_time = 43200000000,
         length_km = 4 / 25\<rparr>,
      \<lparr>name = ''B'', departure = ''08:00'', speed = 60, distance = 240, cars = 8,
         car_length = 20, departure_time = 28800000000, arrival_time = 43200000000,
         length_km = 4 / 25\<rparr>]"

text \<open>A train whose trip takes a tenth of a microsecond, and what setup makes of it.\<close>

definition tiny_trip :: train_desc where
  "tiny_trip =
     \<lparr>name = ''X'', departure = ''08:00'', speed = 36000000000, distance = 1, cars = 8,
        car_length = 20\<rparr>"

definition tiny_train :: train where
  "tiny_train =
     \<lparr>name = ''X'', departure = ''08:00'', speed = 36000000000, distance = 1, cars = 8,
        car_length = 20, departure_time = 28800000000, arrival_time = 28800000000,
        length_km = 4 / 25\<rparr>"







text \<open>Three trains of which the first, a short one, arrives after one minute, and the
  state after their setup.\<close>

definition relay_trips :: "train_desc list" where
  "relay_trips =
     [\<lparr>name = ''A'', departure = ''08:00'', speed = 60, distance = 1, cars = 1, car_length = 1\<rparr>,
      \<lparr>name = ''B'', departure = ''08:00'', speed = 60, distance = 100, cars = 10,
         car_length = 100\<rparr>,
      \<lparr>name = ''C'', departure = ''08:00'', speed = 105, distance = 100, cars = 10,
         car_length = 100\<rparr>]"

definition relay_state :: sim_state where
  "relay_state =
     \<lparr>trains =
        [\<lparr>name = ''A'', departure = ''08:00'', speed = 60, distance = 1, cars = 1,
            car_length = 1, departure_time = 28800000000, arrival_time = 28860000000,
            length_km = 1 / 1000\<rparr>,
         \<lparr>name = ''B'', departure = ''08:00'', speed = 60, distance = 100, cars = 10,
            car_length = 100, departure_time = 28800000000, arrival_time = 34800000000,
            length_km = 1\<rparr>,
         \<lparr>name = ''C'', departure = ''08:00'', speed = 105, distance = 100, cars = 10,
            car_length = 100, departure_time = 28800000000, arrival_time = 32228571429,
            length_km = 1\<rparr>],
      current_time = 28800000000, end_time = 34800000000, warnings = []\<rparr>"

subsection \<open>The order of the output, as the specification words it\<close>

text \<open>The pairs \<open>(i, j)\<close> with \<open>i < j < n\<close>, by \<open>i\<close> and then by \<open>j\<close>.\<close>

definition index_pairs :: "nat \<Rightarrow> (nat \<times> nat) list" where
  "index_pairs n = concat (map (\<lambda>i. map (Pair i) [i + 1 ..< n]) [0 ..< n])"

text \<open>What the loop body prints for one pair.\<close>

definition pair_warnings ::
  "params \<Rightarrow> train list \<Rightarrow> int \<Rightarrow> (string \<times> rat) list \<Rightarrow> string list \<Rightarrow> nat \<times> nat
     \<Rightarrow> warning list" where
  "pair_warnings P ts now positions train_names ij =
     (case check_pair P ts now positions train_names (fst ij) (snd ij) of
        Inl e \<Rightarrow> []
      | Inr ws \<Rightarrow> ws)"

text \<open>The warnings of one tick: those of the pairs of active trains, in pair order.\<close>

definition tick_warnings :: "params \<Rightarrow> train list \<Rightarrow> int \<Rightarrow> warning list" where
  "tick_warnings P ts now =
     (let positions = snapshot now ts [];
          train_names = dict_keys positions
      in concat (map (pair_warnings P ts now positions train_names)
                   (index_pairs (length train_names))))"

text \<open>The gap as the specification words it: the distance of the two positions less the
  lengths of the two trains themselves, found by their names.\<close>

definition length_of :: "train list \<Rightarrow> string \<Rightarrow> rat option" where
  "length_of ts n = map_option length_km (find (\<lambda>t. name t = n) ts)"

definition specified_gap ::
  "train list \<Rightarrow> (string \<times> rat) list \<Rightarrow> string \<Rightarrow> string \<Rightarrow> rat option" where
  "specified_gap ts positions t1 t2 =
     (case (map_of positions t1, map_of positions t2, length_of ts t1, length_of ts t2) of
        (Some p1, Some p2, Some l1, Some l2) \<Rightarrow> Some (\<bar>p1 - p2\<bar> - (l1 + l2))
      | _ \<Rightarrow> None)"

text \<open>The ticks: \<open>start\<close>, \<open>start + step\<close>, ... as long as the clock is at most \<open>end\<close>.\<close>

definition tick_count :: "int \<Rightarrow> int \<Rightarrow> int \<Rightarrow> nat" where
  "tick_count t0 t1 s = (if t0 \<le> t1 then nat ((t1 - t0) div s) + 1 else 0)"

definition tick_times :: "int \<Rightarrow> int \<Rightarrow> int \<Rightarrow> int list" where
  "tick_times t0 t1 s = map (\<lambda>k. t0 + int k * s) [0 ..< tick_count t0 t1 s]"

text \<open>The warnings of a run: those of its ticks, in chronological order.\<close>

definition run_warnings :: "params \<Rightarrow> sim_state \<Rightarrow> warning list" where
  "run_warnings P st =
     concat (map (tick_warnings P (trains st))
               (tick_times (current_time st) (end_time st) (step P)))"

subsection \<open>Facts about the library functions, setup and one tick\<close>

lemma round_half_even_upper: "of_int (round_half_even x) - x \<le> 1 / 2"
  unfolding round_half_even_def Let_def by (auto; linarith)

lemma round_half_even_lower: "x - of_int (round_half_even x) \<le> 1 / 2"
  unfolding round_half_even_def Let_def by (auto; linarith)

lemma round_half_even_of_int: "round_half_even (of_int n) = n"
  unfolding round_half_even_def Let_def by simp

lemma round_half_even_nonneg: "0 \<le> x \<Longrightarrow> 0 \<le> round_half_even x"
  unfolding round_half_even_def Let_def by (auto; linarith)

lemma round_half_even_pos: "1 / 2 < x \<Longrightarrow> 0 < round_half_even x"
proof -
  assume h: "1 / 2 < x"
  then have f: "0 \<le> \<lfloor>x\<rfloor>" by linarith
  show ?thesis
  proof (cases "\<lfloor>x\<rfloor> = 0")
    case True
    then show ?thesis using h unfolding round_half_even_def Let_def by simp
  next
    case False
    with f have "1 \<le> \<lfloor>x\<rfloor>" by linarith
    then show ?thesis unfolding round_half_even_def Let_def by auto
  qed
qed

lemma digit_le: "digit c = Some n \<Longrightarrow> n \<le> 9"
  by (auto simp: digit_def Let_def split: if_splits)

lemma hour_field_lt: "hour_field s = Some h \<Longrightarrow> h < 24"
  by (auto simp: hour_field_def split: list.splits option.splits if_splits dest!: digit_le)

lemma minute_field_lt: "minute_field s = Some m \<Longrightarrow> m < 60"
  by (auto simp: minute_field_def split: list.splits option.splits if_splits dest!: digit_le)

lemma strptime_HM_range:
  assumes "strptime_HM s = Inr t"
  shows "0 \<le> t" and "t < us_per_day"
proof -
  from assms obtain H M where t: "t = (int H * 60 + int M) * 60000000"
    and H: "H < 24" and M: "M < 60"
    by (auto simp: strptime_HM_def split: list.splits option.splits
        dest: hour_field_lt minute_field_lt)
  show "0 \<le> t" using t by simp
  show "t < us_per_day" using t H M by (simp add: us_per_day_def)
qed


lemma setup_train_InrD:
  assumes "setup_train d = Inr t"
  shows "name t = name d" and "speed t = speed d" and "distance t = distance d"
    and "speed d \<noteq> 0"
    and "strptime_HM (departure d) = Inr (departure_time t)"
    and "arrival_time t = departure_time t + round_half_even (distance d / speed d * 3600000000)"
    and "length_km t = cars d * car_length d / 1000"
    and "DATETIME_MIN \<le> arrival_time t" and "arrival_time t \<le> DATETIME_MAX"
  using assms
  by (auto simp: setup_train_def timedelta_hours_def datetime_add_def Let_def
      split: sum.splits if_splits)

lemma setup_trains_InrD:
  "setup_trains ds = Inr ts \<Longrightarrow> list_all2 (\<lambda>d t. setup_train d = Inr t) ds ts"
proof (induction ds arbitrary: ts)
  case Nil
  then show ?case by auto
next
  case (Cons d ds)
  then show ?case by (cases ts) (auto split: sum.splits)
qed

lemma setup_trains_member:
  assumes "setup_trains ds = Inr ts" and "t \<in> set ts"
  shows "\<exists>d\<in>set ds. setup_train d = Inr t"
proof -
  from assms(2) obtain i where i: "i < length ts" and t: "ts ! i = t"
    by (auto simp: in_set_conv_nth)
  from setup_trains_InrD [OF assms(1)]
  have len: "length ds = length ts" and "\<forall>k<length ds. setup_train (ds ! k) = Inr (ts ! k)"
    by (auto simp: list_all2_conv_all_nth)
  with i t have "setup_train (ds ! i) = Inr t" and "ds ! i \<in> set ds" by auto
  then show ?thesis by blast
qed

lemma dict_set_keys:
  "dict_keys (dict_set ps k v) = (if k \<in> set (dict_keys ps) then dict_keys ps else dict_keys ps @ [k])"
  by (induction ps) (auto simp: dict_keys_def)

lemma dict_set_fresh: "k \<notin> fst ` set ps \<Longrightarrow> dict_set ps k v = ps @ [(k, v)]"
  by (induction ps) auto

lemma length_dict_set: "length (dict_set ps k v) \<le> Suc (length ps)"
  by (induction ps) auto

lemma length_snapshot: "length (snapshot now ts acc) \<le> length acc + length ts"
proof (induction ts arbitrary: acc)
  case Nil
  then show ?case by simp
next
  case (Cons t ts)
  have "length (snapshot now ts (dict_set acc (name t) (distance_traveled now t)))
      \<le> length (dict_set acc (name t) (distance_traveled now t)) + length ts"
    by (rule Cons.IH)
  also have "\<dots> \<le> Suc (length acc) + length ts"
    using length_dict_set [of acc "name t" "distance_traveled now t"] by simp
  finally have a: "length (snapshot now ts (dict_set acc (name t) (distance_traveled now t)))
      \<le> length acc + length (t # ts)" by simp
  have b: "length (snapshot now ts acc) \<le> length acc + length (t # ts)"
    using Cons.IH [of acc] by simp
  show ?case using a b by simp
qed

lemma snapshot_distinct:
  assumes "distinct (map name ts)" and "name ` set ts \<inter> fst ` set acc = {}"
  shows "snapshot now ts acc =
    acc @ map (\<lambda>t. (name t, distance_traveled now t)) (filter (active now) ts)"
  using assms
proof (induction ts arbitrary: acc)
  case Nil
  then show ?case by simp
next
  case (Cons t ts)
  show ?case
  proof (cases "active now t")
    case True
    have fresh: "name t \<notin> fst ` set acc" using Cons.prems(2) by auto
    let ?acc = "acc @ [(name t, distance_traveled now t)]"
    have "name ` set ts \<inter> fst ` set ?acc = {}"
      using Cons.prems by auto
    with Cons.IH [of ?acc] Cons.prems(1)
    have "snapshot now ts ?acc =
      ?acc @ map (\<lambda>t. (name t, distance_traveled now t)) (filter (active now) ts)"
      by simp
    then show ?thesis using True by (simp add: dict_set_fresh [OF fresh])
  next
    case False
    have "name ` set ts \<inter> fst ` set acc = {}" using Cons.prems(2) by auto
    with Cons.IH [of acc] Cons.prems(1) False show ?thesis by simp
  qed
qed

lemma dict_get_key:
  "k \<in> set (dict_keys d) \<Longrightarrow> \<exists>v. dict_get d k = Inr v"
  by (cases "map_of d k") (auto simp: dict_get_def dict_keys_def map_of_eq_None_iff)

lemma check_pair_ok:
  assumes "i < length names" and "j < length names" and "length names \<le> length ts"
    and "set names \<subseteq> set (dict_keys positions)"
  shows "\<exists>ws. check_pair P ts now positions names i j = Inr ws"
proof -
  from assms obtain p1 p2 where "dict_get positions (names ! i) = Inr p1"
    and "dict_get positions (names ! j) = Inr p2"
    using dict_get_key [of "names ! i" positions] dict_get_key [of "names ! j" positions]
    by (meson nth_mem subsetD)
  then show ?thesis using assms(1-3)
    by (simp add: check_pair_def compute_gap_def list_get_def)
qed

lemma for_j_ok:
  assumes "i < length names" and "\<forall>j\<in>set js. j < length names"
    and "length names \<le> length ts" and "set names \<subseteq> set (dict_keys positions)"
  shows "for_j P ts now positions names i js out =
    Inr (out @ concat (map (\<lambda>j. pair_warnings P ts now positions names (i, j)) js))"
  using assms(2)
proof (induction js arbitrary: out)
  case Nil
  then show ?case by simp
next
  case (Cons j js)
  from Cons.prems have j: "j < length names" by simp
  from check_pair_ok [OF assms(1) j assms(3,4)]
  obtain ws where ws: "check_pair P ts now positions names i j = Inr ws" by blast
  then have pw: "pair_warnings P ts now positions names (i, j) = ws"
    by (simp add: pair_warnings_def)
  from Cons.IH [of "out @ ws"] Cons.prems ws pw show ?case by simp
qed

lemma for_i_ok:
  assumes "\<forall>i\<in>set is. i < length names"
    and "length names \<le> length ts" and "set names \<subseteq> set (dict_keys positions)"
  shows "for_i P ts now positions names is out =
    Inr (out @ concat (map (\<lambda>i. concat (map (\<lambda>j. pair_warnings P ts now positions names (i, j))
                                             [i + 1 ..< length names])) is))"
  using assms(1)
proof (induction "is" arbitrary: out)
  case Nil
  then show ?case by simp
next
  case (Cons i "is")
  from Cons.prems have i: "i < length names" by simp
  have "for_j P ts now positions names i [i + 1 ..< length names] out =
    Inr (out @ concat (map (\<lambda>j. pair_warnings P ts now positions names (i, j))
                         [i + 1 ..< length names]))"
    by (rule for_j_ok [OF i _ assms(2,3)]) simp
  with Cons.IH Cons.prems show ?case by simp
qed

lemma concat_map_concat:
  "concat (map f (concat xss)) = concat (map (\<lambda>xs. concat (map f xs)) xss)"
  by (induction xss) simp_all

lemma concat_index_pairs:
  "concat (map f (index_pairs n)) =
     concat (map (\<lambda>i. concat (map (\<lambda>j. f (i, j)) [i + 1 ..< n])) [0 ..< n])"
  by (simp add: index_pairs_def concat_map_concat comp_def)

lemma tick_ok: "tick P ts now = Inr (tick_warnings P ts now)"
proof -
  let ?pos = "snapshot now ts []"
  let ?names = "dict_keys ?pos"
  have len: "length ?names \<le> length ts"
    using length_snapshot [of now ts "[]"] by (simp add: dict_keys_def)
  have "for_i P ts now ?pos ?names [0 ..< length ?names] [] =
    Inr ([] @ concat (map (\<lambda>i. concat (map (\<lambda>j. pair_warnings P ts now ?pos ?names (i, j))
                                             [i + 1 ..< length ?names])) [0 ..< length ?names]))"
    by (rule for_i_ok [OF _ len]) simp_all
  then show ?thesis
    by (simp add: tick_def tick_warnings_def Let_def concat_index_pairs)
qed

subsection \<open>Facts about the simulation loop\<close>

lemma tick_count_0: "t1 < t0 \<Longrightarrow> tick_count t0 t1 s = 0"
  by (simp add: tick_count_def)

lemma tick_count_Suc:
  assumes "0 < s" and "t0 \<le> t1"
  shows "tick_count t0 t1 s = Suc (tick_count (t0 + s) t1 s)"
proof (cases "t0 + s \<le> t1")
  case True
  have "(t1 - t0) div s = (t1 - (t0 + s) + s) div s" by simp
  also have "\<dots> = (t1 - (t0 + s)) div s + 1" using assms(1) by (subst div_add_self2) simp_all
  finally have eq: "(t1 - t0) div s = (t1 - (t0 + s)) div s + 1" .
  have "0 \<le> (t1 - (t0 + s)) div s" using True assms(1) by (simp add: pos_imp_zdiv_nonneg_iff)
  then show ?thesis using True assms(2) eq by (simp add: tick_count_def nat_add_distrib)
next
  case False
  then have "(t1 - t0) div s = 0" using assms by (simp add: div_pos_pos_trivial)
  then show ?thesis using False assms(2) by (simp add: tick_count_def)
qed

lemma tick_times_Nil: "t1 < t0 \<Longrightarrow> tick_times t0 t1 s = []"
  by (simp add: tick_times_def tick_count_0)

lemma tick_times_Cons:
  assumes "0 < s" and "t0 \<le> t1"
  shows "tick_times t0 t1 s = t0 # tick_times (t0 + s) t1 s"
proof -
  let ?n = "tick_count (t0 + s) t1 s"
  have "[0 ..< Suc ?n] = 0 # map Suc [0 ..< ?n]"
    by (simp add: upt_conv_Cons map_Suc_upt del: upt_Suc)
  then have "map (\<lambda>k. t0 + int k * s) [0 ..< Suc ?n] =
      t0 # map (\<lambda>k. t0 + s + int k * s) [0 ..< ?n]"
    by (simp add: comp_def algebra_simps del: upt_Suc)
  then show ?thesis
    unfolding tick_times_def tick_count_Suc [OF assms] .
qed

lemma run_warnings_Nil: "end_time st < current_time st \<Longrightarrow> run_warnings P st = []"
  by (simp add: run_warnings_def tick_times_Nil)

lemma run_warnings_Cons:
  assumes "0 < step P" and "current_time st \<le> end_time st"
  shows "run_warnings P st =
    tick_warnings P (trains st) (current_time st) @
    run_warnings P (st\<lparr>current_time := current_time st + step P, warnings := ws\<rparr>)"
  by (simp add: run_warnings_def tick_times_Cons [OF assms])

lemma sim_loop_run:
  assumes "0 < step P" and "DATETIME_MIN \<le> current_time st"
    and "end_time st + step P \<le> DATETIME_MAX"
  shows "sim_loop P st =
    Some (Inr (st\<lparr>current_time :=
                    current_time st
                      + int (tick_count (current_time st) (end_time st) (step P)) * step P,
                  warnings := warnings st @ run_warnings P st\<rparr>))"
  using assms(2,3)
proof (induction "tick_count (current_time st) (end_time st) (step P)" arbitrary: st)
  case 0
  then have gt: "end_time st < current_time st"
    by (simp add: tick_count_def split: if_splits)
  then have "sim_loop P st = Some (Inr st)"
    by (subst sim_loop.simps) simp
  moreover have "tick_count (current_time st) (end_time st) (step P) = 0"
    using gt by (rule tick_count_0)
  ultimately show ?case using gt by (simp add: run_warnings_Nil)
next
  case (Suc n)
  then have le: "current_time st \<le> end_time st"
    by (simp add: tick_count_def split: if_splits)
  let ?tw = "tick_warnings P (trains st) (current_time st)"
  let ?st1 = "st\<lparr>current_time := current_time st + step P, warnings := warnings st @ ?tw\<rparr>"
  have add: "datetime_add (current_time st) (step P) = Inr (current_time st + step P)"
    using le Suc.prems assms(1) by (simp add: datetime_add_def Let_def)
  have unfold: "sim_loop P st = sim_loop P ?st1"
    using le add by (subst sim_loop.simps) (simp add: tick_ok)
  have cnt: "tick_count (current_time st) (end_time st) (step P) =
      Suc (tick_count (current_time ?st1) (end_time ?st1) (step P))"
    using tick_count_Suc [OF assms(1) le] by simp
  with Suc.hyps(2) have n: "n = tick_count (current_time ?st1) (end_time ?st1) (step P)"
    by simp
  have "sim_loop P ?st1 =
    Some (Inr (?st1\<lparr>current_time :=
                    current_time ?st1
                      + int (tick_count (current_time ?st1) (end_time ?st1) (step P)) * step P,
                  warnings := warnings ?st1 @ run_warnings P ?st1\<rparr>))"
    using Suc.prems assms(1) by (intro Suc.hyps(1) [OF n]) simp_all
  moreover have "run_warnings P st = ?tw @ run_warnings P ?st1"
    by (rule run_warnings_Cons [OF assms(1) le])
  ultimately show ?case
    unfolding unfold cnt by (simp add: algebra_simps)
qed


subsection \<open>The clock\<close>

lemma tick_count_less_iff:
  assumes "0 < s"
  shows "k < tick_count t0 t1 s \<longleftrightarrow> t0 + int k * s \<le> t1"
proof (induction k arbitrary: t0)
  case 0
  show ?case by (simp add: tick_count_def)
next
  case (Suc k)
  show ?case
  proof (cases "t0 \<le> t1")
    case True
    have "Suc k < tick_count t0 t1 s \<longleftrightarrow> k < tick_count (t0 + s) t1 s"
      by (simp add: tick_count_Suc [OF assms True])
    also have "\<dots> \<longleftrightarrow> t0 + s + int k * s \<le> t1" by (rule Suc.IH)
    finally show ?thesis by (simp add: algebra_simps)
  next
    case False
    have "0 \<le> int (Suc k) * s" using assms by simp
    with False have "\<not> t0 + int (Suc k) * s \<le> t1" by linarith
    with False show ?thesis by (simp add: tick_count_def)
  qed
qed


lemma min_of_Inr: "min_of xs = Inr m \<Longrightarrow> xs \<noteq> [] \<and> m = Min (set xs)"
  using Min.set_eq_fold [of "hd xs" "tl xs"] by (cases xs) (auto simp: min_of_def)

lemma max_of_Inr: "max_of xs = Inr m \<Longrightarrow> xs \<noteq> [] \<and> m = Max (set xs)"
  using Max.set_eq_fold [of "hd xs" "tl xs"] by (cases xs) (auto simp: max_of_def)

lemma setup_sim_InrD:
  assumes "setup_sim ds = Inr st"
  shows "setup_trains ds = Inr (trains st)" and "trains st \<noteq> []"
    and "current_time st = Min (departure_time ` set (trains st))"
    and "end_time st = Max (arrival_time ` set (trains st))"
    and "warnings st = []"
  using assms
  by (auto simp: setup_sim_def split: sum.splits dest!: min_of_Inr max_of_Inr)

lemma DATETIME_MIN_neg: "DATETIME_MIN \<le> 0"
  by (simp add: DATETIME_MIN_def us_per_day_def)

lemma setup_sim_start:
  assumes "setup_sim ds = Inr st"
  shows "DATETIME_MIN \<le> current_time st"
proof -
  note D = setup_sim_InrD [OF assms]
  have "current_time st \<in> departure_time ` set (trains st)"
    unfolding D(3) using D(2) by (intro Min_in) simp_all
  then obtain t where t: "t \<in> set (trains st)" and c: "current_time st = departure_time t"
    by auto
  from setup_trains_member [OF D(1) t] obtain d where "setup_train d = Inr t" by blast
  from setup_train_InrD(5) [OF this] have "0 \<le> departure_time t"
    by (rule strptime_HM_range(1))
  with c DATETIME_MIN_neg show ?thesis by simp
qed

lemma setup_script: "setup_sim script_trains = Inr script_state"
  by code_simp



subsection \<open>The snapshot and the warning test\<close>

lemma setup_twins: "setup_trains twin_descs = Inr twins"
  by code_simp

lemma distance_traveled_hours:
  "distance_traveled now t = speed t * (of_int (now - departure_time t) / 3600000000)"
  by (simp add: distance_traveled_def total_seconds_def Let_def)

text \<open>
  C5. When the names of the trains are distinct, the position snapshot of a tick holds
  exactly the trains with \<open>departure_time \<le> clock \<le> arrival_time\<close>, in the order of the
  train list, each with the position \<open>speed * (clock - departure_time)\<close>, the elapsed
  time being in hours (a microsecond count divided by 3600000000).
\<close>

theorem snapshot_active_positions:
  assumes "distinct (map name ts)"
  shows "snapshot now ts [] =
    map (\<lambda>t. (name t, speed t * (of_int (now - departure_time t) / 3600000000)))
      (filter (\<lambda>t. departure_time t \<le> now \<and> now \<le> arrival_time t) ts)"
proof -
  have "snapshot now ts [] =
      [] @ map (\<lambda>t. (name t, distance_traveled now t)) (filter (active now) ts)"
    by (rule snapshot_distinct [OF assms]) simp
  moreover have "active now = (\<lambda>t. departure_time t \<le> now \<and> now \<le> arrival_time t)"
    by (auto simp: active_def fun_eq_iff)
  ultimately show ?thesis by (simp add: distance_traveled_hours)
qed

theorem snapshot_active_positions_witness:
  "distinct (map name (trains script_state))
   \<and> snapshot 39660000000 (trains script_state) [] = [(''B'', 151), (''C'', 605 / 3), (''D'', 159)]"
  using snapshot_active_positions [of "trains script_state" 39660000000]
  by (simp add: script_state_def)

text \<open>
  C3. \<open>near_crossing\<close> holds exactly when some crossing is less than 0.01 away from both
  positions. In every tick, for every pair \<open>i < j\<close> of the active trains whose positions
  are near a crossing, the loop body prints nothing, whatever the gap is, and the tick
  prints what the loop body prints for the pairs.
\<close>

theorem no_warning_near_crossing:
  assumes "positions = snapshot now ts []" and "names = dict_keys positions"
    and "i < j" and "j < length names"
    and "dict_get positions (names ! i) = Inr p1"
    and "dict_get positions (names ! j) = Inr p2"
    and "near_crossing (crossings P) p1 p2"
  shows "(\<forall>q1 q2. near_crossing (crossings P) q1 q2 \<longleftrightarrow>
          (\<exists>c\<in>set (crossings P). \<bar>q1 - c\<bar> < 1 / 100 \<and> \<bar>q2 - c\<bar> < 1 / 100))
    \<and> check_pair P ts now positions names i j = Inr []
    \<and> pair_warnings P ts now positions names (i, j) = []
    \<and> tick P ts now =
        Inr (concat (map (pair_warnings P ts now positions names) (index_pairs (length names))))"
proof (intro conjI)
  show "\<forall>q1 q2. near_crossing (crossings P) q1 q2 \<longleftrightarrow>
      (\<exists>c\<in>set (crossings P). \<bar>q1 - c\<bar> < 1 / 100 \<and> \<bar>q2 - c\<bar> < 1 / 100)"
    by (simp add: near_crossing_def list_ex_iff)
  have len: "length names \<le> length ts"
    using length_snapshot [of now ts "[]"] assms(1,2) by (simp add: dict_keys_def)
  from assms(3,4) have i: "i < length names" by simp
  from check_pair_ok [OF i assms(4) len, of positions P now] assms(2)
  obtain ws where ws: "check_pair P ts now positions names i j = Inr ws" by auto
  then show c: "check_pair P ts now positions names i j = Inr []"
    using assms(5-7) i assms(4)
    by (auto simp: check_pair_def list_get_def split: sum.splits if_splits)
  then show "pair_warnings P ts now positions names (i, j) = []"
    by (simp add: pair_warnings_def)
  show "tick P ts now =
      Inr (concat (map (pair_warnings P ts now positions names) (index_pairs (length names))))"
    using assms(1,2) by (simp add: tick_ok tick_warnings_def Let_def)
qed

theorem no_warning_near_crossing_witness:
  "[(''A'', 60), (''B'', 60)] = snapshot 32400000000 twins []
   \<and> [''A'', ''B''] = dict_keys [(''A'', 60 :: rat), (''B'', 60)]
   \<and> (0 :: nat) < 1 \<and> 1 < length [''A'', ''B'']
   \<and> dict_get [(''A'', 60 :: rat), (''B'', 60)] ([''A'', ''B''] ! 0) = Inr 60
   \<and> dict_get [(''A'', 60 :: rat), (''B'', 60)] ([''A'', ''B''] ! 1) = Inr 60
   \<and> near_crossing (crossings script_params) 60 60
   \<and> compute_gap twins [(''A'', 60), (''B'', 60)] [''A'', ''B''] 0 1 = Inr (- (8 / 25))
   \<and> check_pair script_params twins 32400000000 [(''A'', 60), (''B'', 60)] [''A'', ''B''] 0 1
       = Inr []"
proof -
  have h1: "[(''A'', 60), (''B'', 60)] = snapshot 32400000000 twins []"
    by (simp add: twins_def active_def distance_traveled_def total_seconds_def)
  have h2: "[''A'', ''B''] = dict_keys [(''A'', 60 :: rat), (''B'', 60)]"
    by (simp add: dict_keys_def)
  have h3: "(0 :: nat) < 1" and h4: "1 < length [''A'', ''B'']" by simp_all
  have h5: "dict_get [(''A'', 60 :: rat), (''B'', 60)] ([''A'', ''B''] ! 0) = Inr 60"
    and h6: "dict_get [(''A'', 60 :: rat), (''B'', 60)] ([''A'', ''B''] ! 1) = Inr 60"
    by (simp_all add: dict_get_def)
  have h7: "near_crossing (crossings script_params) 60 60"
    by (simp add: near_crossing_def script_params_def)
  have g: "compute_gap twins [(''A'', 60), (''B'', 60)] [''A'', ''B''] 0 1 = Inr (- (8 / 25))"
    by (simp add: compute_gap_def list_get_def dict_get_def twins_def)
  note T = no_warning_near_crossing [OF h1 h2 h3 h4 h5 h6 h7, THEN conjunct2, THEN conjunct1]
  from h1 h2 h3 h4 h5 h6 h7 g T show ?thesis by (intro conjI)
qed

subsection \<open>The loop leaves the trains alone\<close>

lemma sim_loop_step:
  assumes "current_time st \<le> end_time st"
    and "datetime_add (current_time st) (step P) = Inr t'"
  shows "sim_loop P st =
    sim_loop P (st\<lparr>current_time := t',
                   warnings := warnings st @ tick_warnings P (trains st) (current_time st)\<rparr>)"
proof -
  have "sim_loop P st =
     (if current_time st \<le> end_time st
      then
        (case tick P (trains st) (current_time st) of
           Inl e \<Rightarrow> Some (Inl e)
         | Inr ws \<Rightarrow>
             (case datetime_add (current_time st) (step P) of
                Inl e \<Rightarrow> Some (Inl e)
              | Inr t' \<Rightarrow> sim_loop P (st\<lparr>current_time := t', warnings := warnings st @ ws\<rparr>)))
      else Some (Inr st))"
    by (rule sim_loop.simps)
  also have "\<dots> = sim_loop P (st\<lparr>current_time := t',
                   warnings := warnings st @ tick_warnings P (trains st) (current_time st)\<rparr>)"
    by (simp only: assms tick_ok if_True sum.case)
  finally show ?thesis .
qed

lemma sim_loop_frame:
  assumes "sim_loop P st = Some r"
  shows "\<forall>st'. r = Inr st' \<longrightarrow>
    trains st' = trains st \<and> end_time st' = end_time st
    \<and> (\<exists>ws. warnings st' = warnings st @ ws) \<and> end_time st < current_time st'"
proof -
  define Q :: "params \<times> sim_state \<Rightarrow> error + sim_state \<Rightarrow> bool" where
    "Q = (\<lambda>x r. \<forall>st'. r = Inr st' \<longrightarrow>
      trains st' = trains (snd x) \<and> end_time st' = end_time (snd x)
      \<and> (\<exists>ws. warnings st' = warnings (snd x) @ ws) \<and> end_time (snd x) < current_time st')"
  have "Q (P, st) r"
  proof (rule sim_loop.raw_induct [where Pa = Q, OF _ assms])
    fix loop :: "params \<Rightarrow> sim_state \<Rightarrow> (error + sim_state) option"
    fix P st r
    assume IH: "\<And>P st r. loop P st = Some r \<Longrightarrow> Q (P, st) r"
    assume body: "(if current_time st \<le> end_time st
      then case tick P (trains st) (current_time st) of
             Inl e \<Rightarrow> Some (Inl e)
           | Inr ws \<Rightarrow>
               (case datetime_add (current_time st) (step P) of
                  Inl e \<Rightarrow> Some (Inl e)
                | Inr t' \<Rightarrow> loop P (st\<lparr>current_time := t', warnings := warnings st @ ws\<rparr>))
      else Some (Inr st)) = Some r"
    show "Q (P, st) r"
    proof (cases "current_time st \<le> end_time st")
      case False
      from body have "Some (Inr st) = Some r"
        by (simp only: False if_False)
      then have "r = Inr st" by simp
      have "trains st = trains st \<and> end_time st = end_time st
          \<and> (\<exists>ws. warnings st = warnings st @ ws) \<and> end_time st < current_time st"
        using False by simp
      then show ?thesis unfolding Q_def snd_conv \<open>r = Inr st\<close> by blast
    next
      case True
      show ?thesis
      proof (cases "datetime_add (current_time st) (step P)")
        case (Inl e)
        from body have "Some (Inl e) = Some r"
          by (simp only: True Inl tick_ok if_True sum.case)
        then have "r = Inl e" by simp
        then show ?thesis unfolding Q_def by blast
      next
        case (Inr t')
        let ?tw = "tick_warnings P (trains st) (current_time st)"
        let ?st1 = "st\<lparr>current_time := t', warnings := warnings st @ ?tw\<rparr>"
        from body have "loop P ?st1 = Some r"
          by (simp only: True Inr tick_ok if_True sum.case)
        from IH [OF this] have q: "Q (P, ?st1) r" .
        show ?thesis
          unfolding Q_def snd_conv
        proof (rule allI, rule impI)
          fix st'
          assume r: "r = Inr st'"
          from q [unfolded Q_def snd_conv, THEN spec, THEN mp, OF r]
          have f1: "trains st' = trains ?st1" and f2: "end_time st' = end_time ?st1"
            and f3: "\<exists>ws. warnings st' = warnings ?st1 @ ws"
            and f4: "end_time ?st1 < current_time st'"
            by simp_all
          from f3 obtain ws where "warnings st' = warnings ?st1 @ ws" ..
          then have "warnings st' = warnings st @ (?tw @ ws)" by simp
          then have "\<exists>ws. warnings st' = warnings st @ ws" by (rule exI)
          with f1 f2 f4
          show "trains st' = trains st \<and> end_time st' = end_time st
            \<and> (\<exists>ws. warnings st' = warnings st @ ws) \<and> end_time st < current_time st'"
            by simp
        qed
      qed
    qed
  qed
  then show ?thesis unfolding Q_def snd_conv .
qed


text \<open>
  C9. A run of the loop that ends normally leaves the train list and the end time as
  they were, only appends to the output, and ends with the clock beyond the end time,
  whether or not warnings were printed. One iteration changes the clock and the output
  and nothing else. For a positive step, as long as the clock advance stays in the range
  of \<open>datetime\<close>, the loop does end normally.
\<close>

theorem trains_read_only:
  "(\<forall>st'. sim_loop P st = Some (Inr st') \<longrightarrow>
      trains st' = trains st \<and> end_time st' = end_time st
      \<and> (\<exists>ws. warnings st' = warnings st @ ws) \<and> end_time st < current_time st')
   \<and> (\<forall>t'. current_time st \<le> end_time st
          \<and> datetime_add (current_time st) (step P) = Inr t' \<longrightarrow>
        sim_loop P st =
          sim_loop P (st\<lparr>current_time := t',
                         warnings := warnings st @ tick_warnings P (trains st) (current_time st)\<rparr>))
   \<and> (0 < step P \<and> DATETIME_MIN \<le> current_time st \<and> end_time st + step P \<le> DATETIME_MAX \<longrightarrow>
        (\<exists>st'. sim_loop P st = Some (Inr st')))"
proof -
  have a: "\<forall>st'. sim_loop P st = Some (Inr st') \<longrightarrow>
      trains st' = trains st \<and> end_time st' = end_time st
      \<and> (\<exists>ws. warnings st' = warnings st @ ws) \<and> end_time st < current_time st'"
  proof (rule allI, rule impI)
    fix st'
    assume h: "sim_loop P st = Some (Inr st')"
    have "Inr st' = (Inr st' :: error + sim_state)" by (rule refl)
    with sim_loop_frame [OF h, THEN spec, of st']
    show "trains st' = trains st \<and> end_time st' = end_time st
      \<and> (\<exists>ws. warnings st' = warnings st @ ws) \<and> end_time st < current_time st'"
      by (rule mp)
  qed
  have b: "\<forall>t'. current_time st \<le> end_time st
          \<and> datetime_add (current_time st) (step P) = Inr t' \<longrightarrow>
        sim_loop P st =
          sim_loop P (st\<lparr>current_time := t',
                         warnings := warnings st @ tick_warnings P (trains st) (current_time st)\<rparr>)"
  proof (rule allI, rule impI)
    fix t'
    assume h: "current_time st \<le> end_time st
      \<and> datetime_add (current_time st) (step P) = Inr t'"
    show "sim_loop P st =
          sim_loop P (st\<lparr>current_time := t',
                         warnings := warnings st @ tick_warnings P (trains st) (current_time st)\<rparr>)"
      by (rule sim_loop_step [OF h [THEN conjunct1] h [THEN conjunct2]])
  qed
  have c: "0 < step P \<and> DATETIME_MIN \<le> current_time st \<and> end_time st + step P \<le> DATETIME_MAX \<longrightarrow>
        (\<exists>st'. sim_loop P st = Some (Inr st'))"
  proof (rule impI)
    assume h: "0 < step P \<and> DATETIME_MIN \<le> current_time st
      \<and> end_time st + step P \<le> DATETIME_MAX"
    from h have h1: "0 < step P" and h2: "DATETIME_MIN \<le> current_time st"
      and h3: "end_time st + step P \<le> DATETIME_MAX" by simp_all
    show "\<exists>st'. sim_loop P st = Some (Inr st')"
      using sim_loop_run [OF h1 h2 h3] by (rule exI)
  qed
  from a b c show ?thesis by (intro conjI)
qed

theorem trains_read_only_witness:
  "0 < step script_params \<and> DATETIME_MIN \<le> current_time script_state
   \<and> end_time script_state + step script_params \<le> DATETIME_MAX
   \<and> current_time script_state \<le> end_time script_state
   \<and> datetime_add (current_time script_state) (step script_params) = Inr 28860000000
   \<and> sim_loop script_params script_state =
       sim_loop script_params (script_state\<lparr>current_time := 28860000000,
          warnings := warnings script_state
            @ tick_warnings script_params (trains script_state) (current_time script_state)\<rparr>)
   \<and> (\<exists>st'. sim_loop script_params script_state = Some (Inr st')
         \<and> trains st' = trains script_state \<and> end_time st' = end_time script_state
         \<and> (\<exists>ws. warnings st' = warnings script_state @ ws)
         \<and> end_time script_state < current_time st')"
proof -
  have h1: "0 < step script_params" by (simp add: script_params_def)
  have h2: "DATETIME_MIN \<le> current_time script_state"
    by (simp add: script_state_def DATETIME_MIN_def us_per_day_def)
  have h3: "end_time script_state + step script_params \<le> DATETIME_MAX"
    by (simp add: script_params_def script_state_def DATETIME_MAX_def us_per_day_def)
  have h4: "current_time script_state \<le> end_time script_state"
    by (simp add: script_state_def)
  have h5: "datetime_add (current_time script_state) (step script_params) = Inr 28860000000"
    by (simp add: datetime_add_def script_params_def script_state_def
        DATETIME_MIN_def DATETIME_MAX_def us_per_day_def)
  note T = trains_read_only [of script_params script_state]
  note Ta = T [THEN conjunct1]
  note Tb = T [THEN conjunct2, THEN conjunct1]
  note Tc = T [THEN conjunct2, THEN conjunct2]
  from Tc [THEN mp, OF conjI [OF h1 conjI [OF h2 h3]]]
  obtain st' where st': "sim_loop script_params script_state = Some (Inr st')" ..
  from Ta [THEN spec, THEN mp, OF st'] st'
  have fr: "sim_loop script_params script_state = Some (Inr st')
      \<and> (trains st' = trains script_state \<and> end_time st' = end_time script_state
      \<and> (\<exists>ws. warnings st' = warnings script_state @ ws)
      \<and> end_time script_state < current_time st')"
    by simp
  have b: "sim_loop script_params script_state =
       sim_loop script_params (script_state\<lparr>current_time := 28860000000,
          warnings := warnings script_state
            @ tick_warnings script_params (trains script_state) (current_time script_state)\<rparr>)"
    by (rule Tb [THEN spec, THEN mp, OF conjI [OF h4 h5]])
  have ex: "\<exists>st'. sim_loop script_params script_state = Some (Inr st')
         \<and> (trains st' = trains script_state \<and> end_time st' = end_time script_state
         \<and> (\<exists>ws. warnings st' = warnings script_state @ ws)
         \<and> end_time script_state < current_time st')"
    using fr by (rule exI)
  from h1 h2 h3 h4 h5 b ex show ?thesis by (intro conjI)
qed

subsection \<open>The order of the ticks and of the pairs\<close>

lemma pair_warnings_member:
  assumes "w \<in> set (pair_warnings P ts now positions names ij)"
  shows "tick_time w = now" and "t1_name w = names ! fst ij" and "t2_name w = names ! snd ij"
    and "fst ij < length names" and "snd ij < length names"
  using assms
  by (auto simp: pair_warnings_def check_pair_def list_get_def split: sum.splits if_splits)

lemma tick_warnings_time: "w \<in> set (tick_warnings P ts now) \<Longrightarrow> tick_time w = now"
  by (auto simp: tick_warnings_def Let_def dest: pair_warnings_member(1))

lemma sorted_map_const: "\<forall>y\<in>set ys. g y = (c :: int) \<Longrightarrow> sorted (map g ys)"
  by (induction ys) auto

lemma sorted_map_concat:
  fixes g :: "'b \<Rightarrow> int"
  assumes "sorted_wrt (<) xs" and "\<And>x y. x \<in> set xs \<Longrightarrow> y \<in> set (f x) \<Longrightarrow> g y = x"
  shows "sorted (map g (concat (map f xs)))"
  using assms
proof (induction xs)
  case Nil
  then show ?case by simp
next
  case (Cons x xs)
  have a: "sorted (map g (f x))"
    by (rule sorted_map_const [where c = x]) (simp add: Cons.prems(2))
  have b: "sorted (map g (concat (map f xs)))"
    using Cons.prems by (intro Cons.IH) auto
  have c: "\<forall>u\<in>set (map g (f x)). \<forall>v\<in>set (map g (concat (map f xs))). u \<le> v"
  proof (intro ballI)
    fix u v
    assume "u \<in> set (map g (f x))" and "v \<in> set (map g (concat (map f xs)))"
    then obtain y x' z where "y \<in> set (f x)" "u = g y" "x' \<in> set xs" "z \<in> set (f x')" "v = g z"
      by auto
    with Cons.prems(2) have "u = x" and "v = x'" by auto
    moreover from Cons.prems(1) \<open>x' \<in> set xs\<close> have "x < x'" by simp
    ultimately show "u \<le> v" by simp
  qed
  from a b c show ?case by (simp add: sorted_append)
qed

lemma tick_times_sorted: "0 < s \<Longrightarrow> sorted_wrt (<) (tick_times t0 t1 s)"
  unfolding tick_times_def sorted_wrt_map
  by (rule sorted_wrt_mono_rel [OF _ sorted_wrt_upt]) simp

lemma set_tick_times:
  assumes "0 < s"
  shows "set (tick_times t0 t1 s) = {t. \<exists>k::nat. t = t0 + int k * s \<and> t \<le> t1}"
proof -
  have "set (tick_times t0 t1 s) = {t. \<exists>k. k < tick_count t0 t1 s \<and> t = t0 + int k * s}"
    unfolding tick_times_def by (simp add: image_def Bex_def conj_commute)
  also have "\<dots> = {t. \<exists>k::nat. t = t0 + int k * s \<and> t \<le> t1}"
    unfolding tick_count_less_iff [OF assms] by blast
  finally show ?thesis .
qed

lemma in_concat_map: "i \<in> set is \<Longrightarrow> x \<in> set (f i) \<Longrightarrow> x \<in> set (concat (map f is))"
  by auto

lemma index_pairs_member: "(a, b) \<in> set (index_pairs n) \<longleftrightarrow> a < b \<and> b < n"
proof
  assume "(a, b) \<in> set (index_pairs n)"
  then show "a < b \<and> b < n" by (auto simp: index_pairs_def)
next
  assume h: "a < b \<and> b < n"
  then have i: "a \<in> set [0 ..< n]" and j: "b \<in> set [a + 1 ..< n]"
    by simp_all
  from j have "(a, b) \<in> set (map (Pair a) [a + 1 ..< n])"
    unfolding set_map by (rule imageI)
  then show "(a, b) \<in> set (index_pairs n)"
    unfolding index_pairs_def by (rule in_concat_map [OF i])
qed

lemma set_index_pairs: "set (index_pairs n) = {(i, j). i < j \<and> j < n}"
proof (rule set_eqI)
  fix p :: "nat \<times> nat"
  obtain a b where p: "p = (a, b)" by (cases p)
  show "p \<in> set (index_pairs n) \<longleftrightarrow> p \<in> {(i, j). i < j \<and> j < n}"
    unfolding p by (simp only: index_pairs_member mem_Collect_eq prod.case)
qed

lemma index_pairs_sorted_aux:
  assumes "sorted_wrt (<) is"
  shows "sorted_wrt (\<lambda>a b. fst a < fst b \<or> (fst a = fst b \<and> snd a < snd b))
    (concat (map (\<lambda>i. map (Pair i) [i + 1 ..< n]) is))"
  using assms
proof (induction "is")
  case Nil
  then show ?case by simp
next
  case (Cons i "is")
  have a: "sorted_wrt (\<lambda>a b. fst a < fst b \<or> (fst a = fst b \<and> snd a < snd b))
      (map (Pair i) [i + 1 ..< n])"
    unfolding sorted_wrt_map
    by (rule sorted_wrt_mono_rel [OF _ sorted_wrt_upt]) simp
  from Cons have b: "sorted_wrt (\<lambda>a b. fst a < fst b \<or> (fst a = fst b \<and> snd a < snd b))
      (concat (map (\<lambda>i. map (Pair i) [i + 1 ..< n]) is))"
    by simp
  from Cons.prems have c: "\<forall>i'\<in>set is. i < i'" by simp
  have d: "\<forall>x\<in>set (map (Pair i) [i + 1 ..< n]).
      \<forall>y\<in>set (concat (map (\<lambda>i. map (Pair i) [i + 1 ..< n]) is)).
        fst x < fst y \<or> (fst x = fst y \<and> snd x < snd y)"
  proof (intro ballI disjI1)
    fix x y
    assume "x \<in> set (map (Pair i) [i + 1 ..< n])"
      and "y \<in> set (concat (map (\<lambda>i. map (Pair i) [i + 1 ..< n]) is))"
    then have "fst x = i" and "fst y \<in> set is" by auto
    with c show "fst x < fst y" by simp
  qed
  have "sorted_wrt (\<lambda>a b. fst a < fst b \<or> (fst a = fst b \<and> snd a < snd b))
      (map (Pair i) [i + 1 ..< n] @ concat (map (\<lambda>i. map (Pair i) [i + 1 ..< n]) is))"
    unfolding sorted_wrt_append using a b d by (intro conjI)
  then show ?case by simp
qed

lemma index_pairs_sorted:
  "sorted_wrt (\<lambda>a b. fst a < fst b \<or> (fst a = fst b \<and> snd a < snd b)) (index_pairs n)"
  unfolding index_pairs_def by (rule index_pairs_sorted_aux) (rule sorted_wrt_upt)

lemma run_warnings_sorted:
  assumes "0 < step P"
  shows "sorted (map tick_time (run_warnings P st))"
  unfolding run_warnings_def
  by (rule sorted_map_concat [OF tick_times_sorted [OF assms]]) (rule tick_warnings_time)

lemma simulate_run:
  assumes "setup_sim ds = Inr st" and "0 < step P" and "end_time st + step P \<le> DATETIME_MAX"
  shows "simulate P ds =
    Some (Inr (st\<lparr>current_time :=
                    current_time st
                      + int (tick_count (current_time st) (end_time st) (step P)) * step P,
                  warnings := run_warnings P st\<rparr>))"
proof -
  have "simulate P ds = sim_loop P st"
    unfolding simulate_def assms(1) by simp
  also note sim_loop_run [OF assms(2) setup_sim_start [OF assms(1)] assms(3)]
  finally show ?thesis
    unfolding setup_sim_InrD(5) [OF assms(1)] append_Nil .
qed

text \<open>
  C4. The output of a run is a function of its input: after a successful setup, for a
  positive step inside the range of \<open>datetime\<close>, the run returns one state, whose warnings
  are those of the ticks in increasing clock order and, inside a tick, those of the pairs
  \<open>(i, j)\<close> of positions in the list of active trains, \<open>i < j\<close>, ordered by \<open>i\<close> and then
  by \<open>j\<close>. The tick times of the printed warnings are therefore in ascending order.
\<close>

theorem warnings_deterministic_order:
  assumes "setup_sim ds = Inr st" and "0 < step P" and "end_time st + step P \<le> DATETIME_MAX"
  shows "(\<exists>st'. simulate P ds = Some (Inr st')
        \<and> (\<forall>r. simulate P ds = Some r \<longrightarrow> r = Inr st')
        \<and> warnings st' =
            concat (map (\<lambda>now.
                concat (map (pair_warnings P (trains st) now (snapshot now (trains st) [])
                               (dict_keys (snapshot now (trains st) [])))
                          (index_pairs (length (dict_keys (snapshot now (trains st) []))))))
              (tick_times (current_time st) (end_time st) (step P)))
        \<and> sorted (map tick_time (warnings st')))
    \<and> sorted_wrt (<) (tick_times (current_time st) (end_time st) (step P))
    \<and> sorted_wrt (\<lambda>a b. fst a < fst b \<or> (fst a = fst b \<and> snd a < snd b)) (index_pairs n)
    \<and> set (index_pairs n) = {(i, j). i < j \<and> j < n}"
proof -
  let ?st' = "st\<lparr>current_time :=
                    current_time st
                      + int (tick_count (current_time st) (end_time st) (step P)) * step P,
                  warnings := run_warnings P st\<rparr>"
  have run: "simulate P ds = Some (Inr ?st')" by (rule simulate_run [OF assms])
  have det: "\<forall>r. simulate P ds = Some r \<longrightarrow> r = Inr ?st'"
    unfolding run by simp
  have w: "warnings ?st' = run_warnings P st" by simp
  have shape: "run_warnings P st =
      concat (map (\<lambda>now.
          concat (map (pair_warnings P (trains st) now (snapshot now (trains st) [])
                         (dict_keys (snapshot now (trains st) [])))
                    (index_pairs (length (dict_keys (snapshot now (trains st) []))))))
        (tick_times (current_time st) (end_time st) (step P)))"
    unfolding run_warnings_def tick_warnings_def Let_def ..
  have srt: "sorted (map tick_time (warnings ?st'))"
    unfolding w by (rule run_warnings_sorted [OF assms(2)])
  have "\<exists>st'. simulate P ds = Some (Inr st')
        \<and> (\<forall>r. simulate P ds = Some r \<longrightarrow> r = Inr st')
        \<and> warnings st' =
            concat (map (\<lambda>now.
                concat (map (pair_warnings P (trains st) now (snapshot now (trains st) [])
                               (dict_keys (snapshot now (trains st) [])))
                          (index_pairs (length (dict_keys (snapshot now (trains st) []))))))
              (tick_times (current_time st) (end_time st) (step P)))
        \<and> sorted (map tick_time (warnings st'))"
    using run det trans [OF w shape] srt by (intro exI [of _ ?st'] conjI)
  then show ?thesis
    using tick_times_sorted [OF assms(2)] index_pairs_sorted set_index_pairs
    by (intro conjI)
qed

theorem warnings_deterministic_order_witness:
  "setup_sim script_trains = Inr script_state \<and> 0 < step script_params
   \<and> end_time script_state + step script_params \<le> DATETIME_MAX
   \<and> (\<exists>st'. simulate script_params script_trains = Some (Inr st')
        \<and> (\<forall>r. simulate script_params script_trains = Some r \<longrightarrow> r = Inr st')
        \<and> sorted (map tick_time (warnings st')))
   \<and> set (index_pairs 4) = {(i, j). i < j \<and> j < 4}"
proof -
  have h1: "setup_sim script_trains = Inr script_state" by (rule setup_script)
  have h2: "0 < step script_params" by (simp add: script_params_def)
  have h3: "end_time script_state + step script_params \<le> DATETIME_MAX"
    by (simp add: script_params_def script_state_def DATETIME_MAX_def us_per_day_def)
  note T = warnings_deterministic_order [OF h1 h2 h3, of 4]
  from T [THEN conjunct1] obtain st' where
    "simulate script_params script_trains = Some (Inr st')
        \<and> (\<forall>r. simulate script_params script_trains = Some r \<longrightarrow> r = Inr st')
        \<and> sorted (map tick_time (warnings st'))"
    by (elim exE conjE) (intro that conjI)
  then have ex: "\<exists>st'. simulate script_params script_trains = Some (Inr st')
        \<and> (\<forall>r. simulate script_params script_trains = Some r \<longrightarrow> r = Inr st')
        \<and> sorted (map tick_time (warnings st'))"
    by (rule exI)
  from h1 h2 h3 ex T [THEN conjunct2, THEN conjunct2, THEN conjunct2]
  show ?thesis by (intro conjI)
qed

subsection \<open>Travel time and arrival\<close>

lemma travel_time_rounding:
  fixes q :: rat
  shows "\<bar>of_int (round_half_even (q * 3600000000)) / 3600000000 - q\<bar> \<le> 1 / 7200000000"
proof -
  let ?r = "of_int (round_half_even (q * 3600000000)) :: rat"
  have "?r - q * 3600000000 \<le> 1 / 2" and "q * 3600000000 - ?r \<le> 1 / 2"
    by (rule round_half_even_upper, rule round_half_even_lower)
  then show ?thesis by linarith
qed

lemma more_than_half_us: "1 / 7200000000 < (q :: rat) \<Longrightarrow> 1 / 2 < q * 3600000000"
  by linarith

lemma travel_time_exact:
  fixes q :: rat
  assumes "q * 3600000000 \<in> \<int>"
  shows "of_int (round_half_even (q * 3600000000)) / 3600000000 = q"
proof -
  from assms obtain k :: int where k: "q * 3600000000 = of_int k" by (rule Ints_cases)
  have "of_int (round_half_even (q * 3600000000)) = q * 3600000000"
    unfolding k round_half_even_of_int ..
  then show ?thesis by simp
qed

text \<open>
  C8, as the code has it, over exact arithmetic (the quotient \<open>distance / speed\<close> is
  the exact one). The arrival time is the departure time plus \<open>distance / speed\<close>
  hours rounded to a whole number of microseconds, ties to even, as \<open>timedelta\<close> does. So
  the travel time differs from \<open>distance / speed\<close> hours by at most half a microsecond,
  and is equal to it when \<open>distance / speed\<close> hours is a whole number of microseconds.
  With a positive speed and distance the arrival is not before the departure, and it is
  after the departure when \<open>distance / speed\<close> is more than half a microsecond.
\<close>

theorem arrival_rounded:
  assumes "setup_train d = Inr t"
  shows "arrival_time t - departure_time t = round_half_even (distance d / speed d * 3600000000)
    \<and> \<bar>of_int (arrival_time t - departure_time t) / 3600000000 - distance d / speed d\<bar>
        \<le> 1 / 7200000000
    \<and> (distance d / speed d * 3600000000 \<in> \<int> \<longrightarrow>
         of_int (arrival_time t - departure_time t) / 3600000000 = distance d / speed d)
    \<and> (0 < speed d \<and> 0 < distance d \<longrightarrow> departure_time t \<le> arrival_time t)
    \<and> (0 < speed d \<and> 1 / 7200000000 < distance d / speed d \<longrightarrow>
         departure_time t < arrival_time t)"
proof -
  let ?x = "distance d / speed d * 3600000000"
  have diff: "arrival_time t - departure_time t = round_half_even ?x"
    using setup_train_InrD(6) [OF assms] by simp
  have a: "\<bar>of_int (arrival_time t - departure_time t) / 3600000000 - distance d / speed d\<bar>
        \<le> 1 / 7200000000"
    unfolding diff by (rule travel_time_rounding)
  have b: "?x \<in> \<int> \<longrightarrow>
      of_int (arrival_time t - departure_time t) / 3600000000 = distance d / speed d"
    unfolding diff using travel_time_exact by blast
  have c: "0 < speed d \<and> 0 < distance d \<longrightarrow> departure_time t \<le> arrival_time t"
  proof
    assume "0 < speed d \<and> 0 < distance d"
    then have "0 \<le> ?x" by simp
    then have "0 \<le> round_half_even ?x" by (rule round_half_even_nonneg)
    with diff show "departure_time t \<le> arrival_time t" by simp
  qed
  have e: "0 < speed d \<and> 1 / 7200000000 < distance d / speed d \<longrightarrow>
      departure_time t < arrival_time t"
  proof
    assume "0 < speed d \<and> 1 / 7200000000 < distance d / speed d"
    then have "1 / 7200000000 < distance d / speed d" ..
    then have "1 / 2 < ?x" by (rule more_than_half_us)
    then have "0 < round_half_even ?x" by (rule round_half_even_pos)
    with diff show "departure_time t < arrival_time t" by simp
  qed
  from diff a b c e show ?thesis by (intro conjI)
qed

lemma setup_train_A: "setup_train (hd script_trains) = Inr (hd (trains script_state))"
  by code_simp

theorem arrival_rounded_witness:
  "setup_train (hd script_trains) = Inr (hd (trains script_state))
   \<and> distance (hd script_trains) / speed (hd script_trains) * 3600000000 \<in> \<int>
   \<and> 0 < speed (hd script_trains) \<and> 0 < distance (hd script_trains)
   \<and> 1 / 7200000000 < distance (hd script_trains) / speed (hd script_trains)
   \<and> of_int (arrival_time (hd (trains script_state)) - departure_time (hd (trains script_state)))
        / 3600000000 = distance (hd script_trains) / speed (hd script_trains)
   \<and> departure_time (hd (trains script_state)) \<le> arrival_time (hd (trains script_state))
   \<and> departure_time (hd (trains script_state)) < arrival_time (hd (trains script_state))"
proof -
  note T = arrival_rounded [OF setup_train_A]
  have h1: "distance (hd script_trains) / speed (hd script_trains) * 3600000000 \<in> \<int>"
    by (simp add: script_trains_def)
  have h2: "0 < speed (hd script_trains)" and h3: "0 < distance (hd script_trains)"
    and h4: "1 / 7200000000 < distance (hd script_trains) / speed (hd script_trains)"
    by (simp_all add: script_trains_def)
  note T3 = T [THEN conjunct2, THEN conjunct2, THEN conjunct1, THEN mp, OF h1]
  note T4 = T [THEN conjunct2, THEN conjunct2, THEN conjunct2, THEN conjunct1, THEN mp,
      OF conjI [OF h2 h3]]
  note T5 = T [THEN conjunct2, THEN conjunct2, THEN conjunct2, THEN conjunct2, THEN mp,
      OF conjI [OF h2 h4]]
  from setup_train_A h1 h2 h3 h4 T3 T4 T5 show ?thesis by (intro conjI)
qed

text \<open>
  C8 as it is stated fails: for a train with positive speed and distance whose trip takes
  a tenth of a microsecond the arrival time is the departure time, and the travel time,
  zero, is not \<open>distance / speed\<close>.
\<close>

theorem arrival_exact_counterexample:
  "setup_train tiny_trip = Inr tiny_train
   \<and> 0 < speed tiny_trip \<and> 0 < distance tiny_trip
   \<and> of_int (arrival_time tiny_train - departure_time tiny_train) / 3600000000
       \<noteq> distance tiny_trip / speed tiny_trip
   \<and> \<not> departure_time tiny_train < arrival_time tiny_train"
proof -
  have "setup_train tiny_trip = Inr tiny_train" by code_simp
  then show ?thesis by (simp add: tiny_trip_def tiny_train_def)
qed

subsection \<open>Positions of active trains\<close>








subsection \<open>Failures of the setup\<close>














subsection \<open>The gap of a pair\<close>

lemma compute_gap_value:
  assumes "compute_gap ts positions names i j = Inr g"
  shows "\<exists>p1 p2. map_of positions (names ! i) = Some p1 \<and> map_of positions (names ! j) = Some p2
    \<and> g = \<bar>p1 - p2\<bar> - (length_km (ts ! i) + length_km (ts ! j))"
  using assms
  by (auto simp: compute_gap_def list_get_def dict_get_def split: if_splits option.splits)

lemma find_by_name:
  assumes "distinct (map name ts)" and "i < length ts"
  shows "find (\<lambda>t. name t = name (ts ! i)) ts = Some (ts ! i)"
  using assms
proof (induction ts arbitrary: i)
  case Nil
  then show ?case by simp
next
  case (Cons t ts)
  show ?case
  proof (cases i)
    case 0
    then show ?thesis by simp
  next
    case (Suc k)
    with Cons.prems have k: "k < length ts" and "ts ! k \<in> set ts" by simp_all
    with Cons.prems(1) have "name t \<noteq> name (ts ! k)" by auto
    with Cons.IH [OF _ k] Cons.prems(1) Suc show ?thesis by simp
  qed
qed

text \<open>
  When every train is active and the names are distinct, the index of a name in
  \<open>train_names\<close> is the index of its train in \<open>trains\<close>, and line 46 computes the gap of
  the specification.
\<close>

lemma gap_right_when_all_active:
  assumes "distinct (map name ts)" and "\<forall>t\<in>set ts. active now t"
    and "i < length ts" and "j < length ts"
    and "positions = snapshot now ts []" and "names = dict_keys positions"
  shows "compute_gap ts positions names i j
    = (case specified_gap ts positions (names ! i) (names ! j) of
         Some g \<Rightarrow> Inr g | None \<Rightarrow> Inl KeyError)"
proof -
  have f: "filter (active now) ts = ts" using assms(2) by simp
  have pos: "positions = map (\<lambda>t. (name t, distance_traveled now t)) ts"
    unfolding assms(5) using snapshot_distinct [OF assms(1), of "[]" now] f by simp
  have names: "names = map name ts"
    unfolding assms(6) pos dict_keys_def by (simp add: comp_def)
  have ni: "names ! i = name (ts ! i)" and nj: "names ! j = name (ts ! j)"
    unfolding names using assms(3,4) by simp_all
  have mo: "map_of positions (name (ts ! k)) = Some (distance_traveled now (ts ! k))"
    if "k < length ts" for k
  proof -
    have "distinct (map fst positions)" unfolding pos using assms(1) by (simp add: comp_def)
    moreover have "(name (ts ! k), distance_traveled now (ts ! k)) \<in> set positions"
      unfolding pos set_map using that by (intro imageI nth_mem)
    ultimately show ?thesis by (rule map_of_is_SomeI)
  qed
  have li: "length_of ts (name (ts ! i)) = Some (length_km (ts ! i))"
    and lj: "length_of ts (name (ts ! j)) = Some (length_km (ts ! j))"
    unfolding length_of_def
    by (simp_all add: find_by_name [OF assms(1) assms(3)] find_by_name [OF assms(1) assms(4)])
  have len: "length names = length ts" unfolding names by simp
  show ?thesis
    unfolding compute_gap_def specified_gap_def list_get_def dict_get_def ni nj
    using assms(3,4) len
    by (simp add: mo [OF assms(3)] mo [OF assms(4)] li lj ni nj)
qed

text \<open>
  C1. At 11:01 of the script's own run train A has arrived and the active trains are B, C
  and D. For the first pair, B and C, line 46 subtracts the lengths of \<open>trains[0]\<close> and
  \<open>trains[1]\<close>, those of A and B, 0.16 + 0.25 km, where the specification subtracts the
  lengths of B and C, 0.25 + 0.108 km.
\<close>

theorem gap_reads_lengths_by_position:
  "snapshot 39660000000 (trains script_state) [] = [(''B'', 151), (''C'', 605 / 3), (''D'', 159)]
   \<and> dict_keys [(''B'', 151 :: rat), (''C'', 605 / 3), (''D'', 159)] = [''B'', ''C'', ''D'']
   \<and> compute_gap (trains script_state) [(''B'', 151), (''C'', 605 / 3), (''D'', 159)]
        [''B'', ''C'', ''D''] 0 1 = Inr (15077 / 300)
   \<and> specified_gap (trains script_state) [(''B'', 151), (''C'', 605 / 3), (''D'', 159)]
        ''B'' ''C'' = Some (75463 / 1500)
   \<and> \<bar>151 - 605 / 3\<bar> - (length_km (trains script_state ! 0) + length_km (trains script_state ! 1))
        = (15077 / 300 :: rat)
   \<and> map name (trains script_state) = [''A'', ''B'', ''C'', ''D'']"
proof -
  have a: "snapshot 39660000000 (trains script_state) []
      = [(''B'', 151), (''C'', 605 / 3), (''D'', 159)]"
    by (simp add: script_state_def active_def distance_traveled_def total_seconds_def)
  have b: "dict_keys [(''B'', 151 :: rat), (''C'', 605 / 3), (''D'', 159)] = [''B'', ''C'', ''D'']"
    by (simp add: dict_keys_def)
  have c: "compute_gap (trains script_state) [(''B'', 151), (''C'', 605 / 3), (''D'', 159)]
        [''B'', ''C'', ''D''] 0 1 = Inr (15077 / 300)"
    by (simp add: compute_gap_def list_get_def dict_get_def script_state_def)
  have d: "specified_gap (trains script_state) [(''B'', 151), (''C'', 605 / 3), (''D'', 159)]
        ''B'' ''C'' = Some (75463 / 1500)"
    by (simp add: specified_gap_def length_of_def script_state_def)
  have e: "\<bar>151 - 605 / 3\<bar>
      - (length_km (trains script_state ! 0) + length_km (trains script_state ! 1))
        = (15077 / 300 :: rat)"
    by (simp add: script_state_def)
  have f: "map name (trains script_state) = [''A'', ''B'', ''C'', ''D'']"
    by (simp add: script_state_def)
  from a b c d e f show ?thesis by (intro conjI)
qed

text \<open>
  C6. A pair of active trains that is not near a crossing is to get a warning exactly
  when its gap, in metres, is strictly below the safe distance. The code tests the gap of
  line 46 and so breaks this where that gap has the wrong lengths: in the run of three
  trains where the short train A has arrived after one minute, B and C, each one
  kilometre long, are 1.5 km apart at 08:02, away from any crossing. The specified gap is
  -500 m, below the safe distance of 100 m, but the tick prints nothing, since line 46
  computes 499 m from the lengths of A and B.
\<close>

theorem threshold_test_on_wrong_gap:
  "setup_sim relay_trips = Inr relay_state
   \<and> snapshot 28920000000 (trains relay_state) [] = [(''B'', 2), (''C'', 7 / 2)]
   \<and> specified_gap (trains relay_state) [(''B'', 2), (''C'', 7 / 2)] ''B'' ''C'' = Some (- (1 / 2))
   \<and> - (1 / 2) * 1000 < safe_distance script_params
   \<and> \<not> near_crossing (crossings script_params) 2 (7 / 2)
   \<and> compute_gap (trains relay_state) [(''B'', 2), (''C'', 7 / 2)] [''B'', ''C''] 0 1
       = Inr (499 / 1000)
   \<and> tick script_params (trains relay_state) 28920000000 = Inr []"
proof -
  have a: "setup_sim relay_trips = Inr relay_state" by code_simp
  have b: "snapshot 28920000000 (trains relay_state) [] = [(''B'', 2), (''C'', 7 / 2)]"
    by (simp add: relay_state_def active_def distance_traveled_def total_seconds_def)
  have c: "specified_gap (trains relay_state) [(''B'', 2), (''C'', 7 / 2)] ''B'' ''C''
      = Some (- (1 / 2))"
    by (simp add: specified_gap_def length_of_def relay_state_def)
  have d: "- (1 / 2) * 1000 < safe_distance script_params"
    by (simp add: script_params_def)
  have e: "\<not> near_crossing (crossings script_params) 2 (7 / 2)"
    by (simp add: near_crossing_def script_params_def)
  have f: "compute_gap (trains relay_state) [(''B'', 2), (''C'', 7 / 2)] [''B'', ''C''] 0 1
       = Inr (499 / 1000)"
    by (simp add: compute_gap_def list_get_def dict_get_def relay_state_def)
  have g: "tick script_params (trains relay_state) 28920000000 = Inr []" by code_simp
  from a b c d e f g show ?thesis by (intro conjI)
qed

end
